theory Spec2Isabelle
  imports Main "HOL-Library.Sublist"
begin

section \<open>Decoded values\<close>

text \<open>
  The values the JSON decoder of the standard library hands to the pipeline of
  \<^verbatim>\<open>main.py\<close>: \<^verbatim>\<open>None\<close>, booleans, integers, floats, strings, lists and dicts.
  A dict keeps its insertion order, which \<^verbatim>\<open>normalize_extracted\<close> depends on, so it is
  an association list; its keys are distinct wherever the decoder built it.
  No operation of the pipeline looks inside a float, so a float is kept as the
  literal it was read from. Strings are the UTF-8 bytes of the Python string.
\<close>

datatype json =
    JNull
  | JBool bool
  | JInt int
  | JFloat string
  | JStr string
  | JList "json list"
  | JDict "(string \<times> json) list"

text \<open>\<^verbatim>\<open>isinstance(v, list)\<close> and \<^verbatim>\<open>isinstance(v, dict)\<close>.\<close>

fun is_list :: "json \<Rightarrow> bool" where
  "is_list (JList xs) = True"
| "is_list v = False"

fun is_dict :: "json \<Rightarrow> bool" where
  "is_dict (JDict kvs) = True"
| "is_dict v = False"

fun is_str :: "json \<Rightarrow> bool" where
  "is_str (JStr s) = True"
| "is_str v = False"

text \<open>\<^verbatim>\<open>d[k] = v\<close>: an existing key keeps its place, a new key goes to the end.\<close>

fun dict_set :: "(string \<times> json) list \<Rightarrow> string \<Rightarrow> json \<Rightarrow> (string \<times> json) list" where
  "dict_set [] k v = [(k, v)]"
| "dict_set ((k', v') # kvs) k v =
     (if k' = k then (k, v) # kvs else (k', v') # dict_set kvs k v)"

text \<open>\<^verbatim>\<open>d.get(k, default)\<close>.\<close>

definition dict_get :: "(string \<times> json) list \<Rightarrow> string \<Rightarrow> json \<Rightarrow> json" where
  "dict_get kvs k dflt = (case map_of kvs k of Some v \<Rightarrow> v | None \<Rightarrow> dflt)"

section \<open>The JSON decoder\<close>

text \<open>
  \<^verbatim>\<open>json.loads\<close> belongs to the standard library, not to this repository. The
  pipeline is therefore modelled over any decoder \<open>loads :: string \<Rightarrow> json option\<close>,
  with \<open>None\<close> for every exception the decoder raises (they are all of class
  \<^verbatim>\<open>Exception\<close>, which the two \<^verbatim>\<open>except Exception: pass\<close> clauses swallow).
  \<open>json_loads\<close> below is a reference decoder for the grammar the library
  accepts (leading and trailing blanks, \<^verbatim>\<open>null\<close>, \<^verbatim>\<open>true\<close>, \<^verbatim>\<open>false\<close>,
  \<^verbatim>\<open>NaN\<close>, \<^verbatim>\<open>Infinity\<close>, \<^verbatim>\<open>-Infinity\<close>, numbers, strings with escapes and
  surrogate pairs, arrays, objects whose duplicate keys keep the last value);
  it is what the concrete examples are evaluated with. The interpreter's
  resource limits (recursion depth, the digit limit of integers) are not part of it.

  The decoder is a scanner that reads one character at a time, followed by a
  stack machine over the tokens, so both are structurally recursive.
\<close>

definition is_ws :: "char \<Rightarrow> bool" where
  "is_ws c = (c = CHR '' '' \<or> c = CHR 0x09 \<or> c = CHR 0x0A \<or> c = CHR 0x0D)"

definition is_digit :: "char \<Rightarrow> bool" where
  "is_digit c = (48 \<le> (of_char c :: nat) \<and> (of_char c :: nat) \<le> 57)"

definition is_atom_char :: "char \<Rightarrow> bool" where
  "is_atom_char c =
     (let n = (of_char c :: nat)
      in (48 \<le> n \<and> n \<le> 57) \<or> (65 \<le> n \<and> n \<le> 90) \<or> (97 \<le> n \<and> n \<le> 122)
         \<or> c = CHR ''+'' \<or> c = CHR ''-'' \<or> c = CHR ''.'')"

definition hex_val :: "char \<Rightarrow> nat option" where
  "hex_val c =
     (let n = (of_char c :: nat)
      in if 48 \<le> n \<and> n \<le> 57 then Some (n - 48)
         else if 65 \<le> n \<and> n \<le> 70 then Some (n - 55)
         else if 97 \<le> n \<and> n \<le> 102 then Some (n - 87)
         else None)"

definition utf8 :: "nat \<Rightarrow> string" where
  "utf8 n =
     (if n < 0x80 then [char_of n]
      else if n < 0x800 then [char_of (0xC0 + n div 64), char_of (0x80 + n mod 64)]
      else if n < 0x10000 then
        [char_of (0xE0 + n div 4096), char_of (0x80 + (n div 64) mod 64),
         char_of (0x80 + n mod 64)]
      else
        [char_of (0xF0 + n div 262144), char_of (0x80 + (n div 4096) mod 64),
         char_of (0x80 + (n div 64) mod 64), char_of (0x80 + n mod 64)])"

datatype sunit = Raw char | Esc nat

fun units_to_bytes :: "sunit list \<Rightarrow> string" where
  "units_to_bytes [] = []"
| "units_to_bytes (Raw c # us) = c # units_to_bytes us"
| "units_to_bytes [Esc h] = utf8 h"
| "units_to_bytes (Esc h # Raw c # us) = utf8 h @ c # units_to_bytes us"
| "units_to_bytes (Esc h # Esc l # us) =
     (if 0xD800 \<le> h \<and> h \<le> 0xDBFF \<and> 0xDC00 \<le> l \<and> l \<le> 0xDFFF
      then utf8 (0x10000 + (h - 0xD800) * 1024 + (l - 0xDC00)) @ units_to_bytes us
      else utf8 h @ units_to_bytes (Esc l # us))"

definition unescape :: "char \<Rightarrow> char option" where
  "unescape c =
     (if c = CHR 0x22 \<or> c = CHR 0x5C \<or> c = CHR ''/'' then Some c
      else if c = CHR ''b'' then Some (CHR 0x08)
      else if c = CHR ''f'' then Some (CHR 0x0C)
      else if c = CHR ''n'' then Some (CHR 0x0A)
      else if c = CHR ''r'' then Some (CHR 0x0D)
      else if c = CHR ''t'' then Some (CHR 0x09)
      else None)"

definition dec_val :: "string \<Rightarrow> int" where
  "dec_val ds = foldl (\<lambda>a c. 10 * a + (of_char c - 48)) 0 ds"

definition number_atom :: "string \<Rightarrow> json option" where
  "number_atom a =
     (let neg = (a \<noteq> [] \<and> hd a = CHR ''-'');
          r0 = (if neg then tl a else a);
          ip = takeWhile is_digit r0;
          r1 = dropWhile is_digit r0;
          has_frac = (r1 \<noteq> [] \<and> hd r1 = CHR ''.'');
          fp = (if has_frac then takeWhile is_digit (tl r1) else []);
          r2 = (if has_frac then dropWhile is_digit (tl r1) else r1);
          has_exp = (r2 \<noteq> [] \<and> (hd r2 = CHR ''e'' \<or> hd r2 = CHR ''E''));
          r3 = (if has_exp then tl r2 else r2);
          r4 = (if has_exp \<and> r3 \<noteq> [] \<and> (hd r3 = CHR ''+'' \<or> hd r3 = CHR ''-'')
                then tl r3 else r3);
          ep = (if has_exp then takeWhile is_digit r4 else []);
          r5 = (if has_exp then dropWhile is_digit r4 else r4)
      in if ip = [] \<or> (hd ip = CHR ''0'' \<and> ip \<noteq> ''0'') then None
         else if has_frac \<and> fp = [] then None
         else if has_exp \<and> ep = [] then None
         else if r5 \<noteq> [] then None
         else if has_frac \<or> has_exp then Some (JFloat a)
         else Some (JInt (if neg then - dec_val ip else dec_val ip)))"

definition classify_atom :: "string \<Rightarrow> json option" where
  "classify_atom a =
     (if a = ''null'' then Some JNull
      else if a = ''true'' then Some (JBool True)
      else if a = ''false'' then Some (JBool False)
      else if a = ''NaN'' \<or> a = ''Infinity'' \<or> a = ''-Infinity'' then Some (JFloat a)
      else number_atom a)"

datatype token =
  TLBrack | TRBrack | TLBrace | TRBrace | TComma | TColon | TStr string | TLit json

datatype lex_mode =
  LNormal | LAtom string | LStr "sunit list" | LEsc "sunit list" | LUni "sunit list" nat nat

definition punct :: "char \<Rightarrow> token option" where
  "punct c =
     (if c = CHR ''['' then Some TLBrack
      else if c = CHR '']'' then Some TRBrack
      else if c = CHR ''{'' then Some TLBrace
      else if c = CHR ''}'' then Some TRBrace
      else if c = CHR '','' then Some TComma
      else if c = CHR '':'' then Some TColon
      else None)"

fun tokenize :: "lex_mode \<Rightarrow> token list \<Rightarrow> string \<Rightarrow> token list option" where
  "tokenize m ts [] =
     (case m of
        LNormal \<Rightarrow> Some (rev ts)
      | LAtom a \<Rightarrow>
          (case classify_atom (rev a) of
             Some v \<Rightarrow> Some (rev (TLit v # ts))
           | None \<Rightarrow> None)
      | _ \<Rightarrow> None)"
| "tokenize m ts (c # cs) =
     (case m of
        LNormal \<Rightarrow>
          if is_ws c then tokenize LNormal ts cs
          else if c = CHR 0x22 then tokenize (LStr []) ts cs
          else if is_atom_char c then tokenize (LAtom [c]) ts cs
          else (case punct c of
                  Some t \<Rightarrow> tokenize LNormal (t # ts) cs
                | None \<Rightarrow> None)
      | LAtom a \<Rightarrow>
          if is_atom_char c then tokenize (LAtom (c # a)) ts cs
          else (case classify_atom (rev a) of
                  None \<Rightarrow> None
                | Some v \<Rightarrow>
                    if is_ws c then tokenize LNormal (TLit v # ts) cs
                    else if c = CHR 0x22 then tokenize (LStr []) (TLit v # ts) cs
                    else (case punct c of
                            Some t \<Rightarrow> tokenize LNormal (t # TLit v # ts) cs
                          | None \<Rightarrow> None))
      | LStr acc \<Rightarrow>
          if c = CHR 0x22 then tokenize LNormal (TStr (units_to_bytes (rev acc)) # ts) cs
          else if c = CHR 0x5C then tokenize (LEsc acc) ts cs
          else if (of_char c :: nat) < 32 then None
          else tokenize (LStr (Raw c # acc)) ts cs
      | LEsc acc \<Rightarrow>
          if c = CHR ''u'' then tokenize (LUni acc 0 0) ts cs
          else (case unescape c of
                  None \<Rightarrow> None
                | Some d \<Rightarrow> tokenize (LStr (Raw d # acc)) ts cs)
      | LUni acc k n \<Rightarrow>
          (case hex_val c of
             None \<Rightarrow> None
           | Some d \<Rightarrow>
               if k = 3 then tokenize (LStr (Esc (16 * n + d) # acc)) ts cs
               else tokenize (LUni acc (Suc k) (16 * n + d)) ts cs))"

datatype frame =
  FArr "json list" | FObj "(string \<times> json) list" | FKey "(string \<times> json) list" string

datatype phase = PValue | PFirst | PKeyFirst | PKey | PColon | PAfter | PDone json

fun close_value :: "json \<Rightarrow> frame list \<Rightarrow> (phase \<times> frame list) option" where
  "close_value v [] = Some (PDone v, [])"
| "close_value v (FArr es # st) = Some (PAfter, FArr (v # es) # st)"
| "close_value v (FKey kvs k # st) = Some (PAfter, FObj (dict_set kvs k v) # st)"
| "close_value v (FObj kvs # st) = None"

definition open_value :: "token \<Rightarrow> frame list \<Rightarrow> (phase \<times> frame list) option" where
  "open_value t st =
     (case t of
        TLBrack \<Rightarrow> Some (PFirst, FArr [] # st)
      | TLBrace \<Rightarrow> Some (PKeyFirst, FObj [] # st)
      | TStr s \<Rightarrow> close_value (JStr s) st
      | TLit v \<Rightarrow> close_value v st
      | _ \<Rightarrow> None)"

definition take_key :: "token \<Rightarrow> frame list \<Rightarrow> (phase \<times> frame list) option" where
  "take_key t st =
     (case (t, st) of
        (TStr k, FObj kvs # st') \<Rightarrow> Some (PColon, FKey kvs k # st')
      | _ \<Rightarrow> None)"

definition close_array :: "frame list \<Rightarrow> (phase \<times> frame list) option" where
  "close_array st =
     (case st of FArr es # st' \<Rightarrow> close_value (JList (rev es)) st' | _ \<Rightarrow> None)"

definition close_object :: "frame list \<Rightarrow> (phase \<times> frame list) option" where
  "close_object st =
     (case st of FObj kvs # st' \<Rightarrow> close_value (JDict kvs) st' | _ \<Rightarrow> None)"

definition pstep :: "token \<Rightarrow> phase \<times> frame list \<Rightarrow> (phase \<times> frame list) option" where
  "pstep t ps =
     (case ps of (ph, st) \<Rightarrow>
        (case ph of
           PValue \<Rightarrow> open_value t st
         | PFirst \<Rightarrow> if t = TRBrack then close_array st else open_value t st
         | PKeyFirst \<Rightarrow> if t = TRBrace then close_object st else take_key t st
         | PKey \<Rightarrow> take_key t st
         | PColon \<Rightarrow> if t = TColon then Some (PValue, st) else None
         | PAfter \<Rightarrow>
             if t = TComma then
               (case st of
                  FArr es # st' \<Rightarrow> Some (PValue, st)
                | FObj kvs # st' \<Rightarrow> Some (PKey, st)
                | _ \<Rightarrow> None)
             else if t = TRBrack then close_array st
             else if t = TRBrace then close_object st
             else None
         | PDone v \<Rightarrow> None))"

fun parse_tokens :: "token list \<Rightarrow> phase \<times> frame list \<Rightarrow> json option" where
  "parse_tokens [] ps = (case ps of (PDone v, []) \<Rightarrow> Some v | _ \<Rightarrow> None)"
| "parse_tokens (t # ts) ps =
     (case pstep t ps of None \<Rightarrow> None | Some ps' \<Rightarrow> parse_tokens ts ps')"

definition json_loads :: "string \<Rightarrow> json option" where
  "json_loads s =
     (case tokenize LNormal [] s of
        None \<Rightarrow> None
      | Some ts \<Rightarrow> parse_tokens ts (PValue, []))"

section \<open>Shape normalisation\<close>

text \<open>
  \<^verbatim>\<open>
  def normalize_extracted(extracted):
      if isinstance(extracted, list):
          return extracted
      if isinstance(extracted, dict):
          for v in extracted.values():
              if isinstance(v, list) and all(isinstance(i, dict) for i in v):
                  return v
          return [extracted]
      return []
  \<close>
  \<open>first_dict_list\<close> is the \<^verbatim>\<open>for\<close> loop over the values: \<open>Some v\<close> is its
  \<^verbatim>\<open>return v\<close>, \<open>None\<close> is falling out of the loop.
\<close>

fun first_dict_list :: "json list \<Rightarrow> json list option" where
  "first_dict_list [] = None"
| "first_dict_list (v # vs) =
     (case v of
        JList xs \<Rightarrow> if list_all is_dict xs then Some xs else first_dict_list vs
      | _ \<Rightarrow> first_dict_list vs)"

fun normalize_extracted :: "json \<Rightarrow> json list" where
  "normalize_extracted (JList xs) = xs"
| "normalize_extracted (JDict kvs) =
     (case first_dict_list (map snd kvs) of
        Some v \<Rightarrow> v
      | None \<Rightarrow> [JDict kvs])"
| "normalize_extracted v = []"

text \<open>A list composed entirely of mappings, the test of the loop above.\<close>

fun is_dict_list :: "json \<Rightarrow> bool" where
  "is_dict_list (JList xs) = list_all is_dict xs"
| "is_dict_list v = False"

section \<open>The schema\<close>

text \<open>
  \<^verbatim>\<open>COLUMNS\<close>, lines 21 to 40 of \<^verbatim>\<open>main.py\<close>. The one character outside ASCII,
  the rupee sign U+20B9, is written as its three UTF-8 bytes.
\<close>

definition COLUMNS :: "string list" where
  "COLUMNS =
     [''Sr. No.'',
      ''SB NO.'',
      ''S/B Date'',
      ''LEO Date'',
      ''CUSTOMER NAME'',
      ''FINAL INVOICE NO'',
      ''SB. SOLAR / OTHER GOODS'',
      ''PORT CODE'',
      ''INCOTERMS'',
      ''COUNTRY'',
      ''H.S. Itch code'',
      ''PRODUCT GROUP'',
      ''Qty'',
      ''Unit'',
      ''FOB Value declared by us (S/B)in FC'',
      ''Currency of export'',
      ''Custom Exchange Rate in FC'',
      ''LEO Date Exchange Rate in in FC'',
      ''FOB Value as per SB in INR'',
      ''FOB Value as per LEO ex rate in INR'',
      ''ACTUAL FRT + INSURANC  IN FC'',
      ''Total Invoice Value in FC as per SB'',
      ''PAYMENT RECEIPT'',
      ''PAYMENT OUTSTANDING'',
      ''Total Invoice Value in INR as per SB'',
      ''SCHEME (ADV/DFIA/DRAWBACK)'',
      ''EPCG LICECE'',
      ''Drawback cap per unit in Rs. ('' @ [CHR 0xE2, CHR 0x82, CHR 0xB9] @ '')'',
      ''DBK %'',
      ''DRAWBACK Receivable on fob'',
      ''DRAWBCK Scrol NO'',
      ''Scroll Date'',
      ''DBK Realized BEFORE 31.03.2026'',
      ''SHORT REALIZATION'',
      ''BAL DBK'',
      ''REASONS OF BAL DBK'',
      ''REMARKS FOR ACTION TAKEN FOR RECOVERY AS ON DTD. XX.XX.2020'',
      ''RoDTEP%'',
      ''RoDTEP RECEIVABLE'',
      ''RoDTEP Y/N'',
      ''Transmitted Y/N'',
      ''RoDTEP REALIZE BEFORE 31.03.2026'',
      ''SCRIP NUMBER'',
      ''SCRIP ISSUE DATE'',
      ''SORT REALIZAION'',
      ''BAL RoDTEP'',
      ''REASONS OF BAL RoDTEP'',
      ''DBK Not Realized BUT PAYMENT OUTSTANDING > 9 MONTH'',
      ''Reason for BAL/SHORTFALL'',
      ''REMARKS FOR ACTION TAKEN FOR RECOVERY AS ON DTD.'',
      ''BOOKING IN SAP'']"

section \<open>Collaborators\<close>

text \<open>
  What the pipeline calls but does not define. An exception is an instance of
  \<^verbatim>\<open>Exception\<close>, the class the handlers of \<^verbatim>\<open>main.py\<close> name, carrying the text
  \<^verbatim>\<open>str(e)\<close>; a computation that may raise returns \<open>exn + 'a\<close>, \<open>Inl\<close> the
  exception. The signals that end the interpreter (\<^verbatim>\<open>KeyboardInterrupt\<close>,
  \<^verbatim>\<open>SystemExit\<close>) are not of that class and are no failure of a document; they
  are outside the model.

  The model \<^verbatim>\<open>llm\<close> is a state machine over a world \<open>'w\<close>: \<^verbatim>\<open>llm.invoke(prompt)\<close>
  either raises or returns a response, and leaves a new world. The content of a
  response is a string, or something that is not a string (a list of parts),
  which \<^verbatim>\<open>re.search\<close> refuses with a \<^verbatim>\<open>TypeError\<close> whose text \<open>NonText\<close> carries.

  An uploaded file has a \<^verbatim>\<open>name\<close> and a \<^verbatim>\<open>read()\<close> that raises or yields bytes. The
  loader stands for writing the temporary file and \<^verbatim>\<open>PyPDFLoader(tmp_path).load()\<close>:
  it raises or yields the \<^verbatim>\<open>page_content\<close> of every page.
\<close>

datatype exn = Exception string

datatype content = Text string | NonText string

type_synonym 'w llm = "string \<Rightarrow> 'w \<Rightarrow> (exn + content) \<times> 'w"

type_synonym decoder = "string \<Rightarrow> json option"

type_synonym loader = "string \<Rightarrow> exn + string list"

record uploaded_file =
  name :: string
  read :: "exn + string"

section \<open>Parsing helpers\<close>

text \<open>
  \<^verbatim>\<open>
  def _extract_json_block(text: str):
      m = re.search(r"(\[.*\]|\{.*\})", text, re.DOTALL)
      return m.group(1) if m else None
  \<close>
  \<^verbatim>\<open>re.search\<close> tries the start positions from left to right and, at each, the
  two alternatives in order. With \<^verbatim>\<open>re.DOTALL\<close> the greedy \<^verbatim>\<open>.*\<close> runs to the end of
  the text and backtracks to the last closing bracket, so at a position holding
  \<^verbatim>\<open>[\<close> the first alternative matches exactly when a \<^verbatim>\<open>]\<close> follows somewhere, and
  then ends at the last \<^verbatim>\<open>]\<close> of the text; likewise for \<^verbatim>\<open>{\<close> and \<^verbatim>\<open>}\<close>.
\<close>

definition upto_last :: "char \<Rightarrow> string \<Rightarrow> string" where
  "upto_last c s = rev (dropWhile (\<lambda>x. x \<noteq> c) (rev s))"

fun extract_json_block :: "string \<Rightarrow> string option" where
  "extract_json_block [] = None"
| "extract_json_block (c # cs) =
     (if c = CHR ''['' \<and> CHR '']'' \<in> set cs then Some (c # upto_last (CHR '']'') cs)
      else if c = CHR ''{'' \<and> CHR ''}'' \<in> set cs then Some (c # upto_last (CHR ''}'') cs)
      else extract_json_block cs)"

text \<open>
  Two notions for stating what the search finds. \<open>opens s\<close>: \<open>s\<close> starts with a
  \<^verbatim>\<open>[\<close> that some \<^verbatim>\<open>]\<close> follows, or with a \<^verbatim>\<open>{\<close> that some \<^verbatim>\<open>}\<close> follows, which is
  when the pattern matches at the start of \<open>s\<close>. \<open>closer\<close> is the bracket that
  closes an opening one.
\<close>

definition closer :: "char \<Rightarrow> char" where
  "closer c = (if c = CHR ''['' then CHR '']'' else CHR ''}'')"

fun opens :: "string \<Rightarrow> bool" where
  "opens [] = False"
| "opens (c # cs) = (c = CHR ''['' \<and> CHR '']'' \<in> set cs \<or> c = CHR ''{'' \<and> CHR ''}'' \<in> set cs)"

text \<open>
  The span in the words of C5, for comparison with \<open>extract_json_block\<close>: from
  the first \<^verbatim>\<open>[\<close> or \<^verbatim>\<open>{\<close> of the text to the last matching \<^verbatim>\<open>]\<close> or \<^verbatim>\<open>}\<close>, and
  no span when that first bracket has no matching one after it.
\<close>

definition spec_bracket_span :: "string \<Rightarrow> string option" where
  "spec_bracket_span text =
     (case dropWhile (\<lambda>c. c \<noteq> CHR ''['' \<and> c \<noteq> CHR ''{'') text of
        [] \<Rightarrow> None
      | c # cs \<Rightarrow> if closer c \<in> set cs then Some (c # upto_last (closer c) cs) else None)"

text \<open>
  \<^verbatim>\<open>
  def generate_json_from_gemini(prompt: str, retries: int = 3):
      for attempt in range(retries):
          resp = llm.invoke(prompt)
          text = resp.content if hasattr(resp, "content") else resp
          try:
              return json.loads(text)
          except Exception:
              pass
          block = _extract_json_block(text)
          if block:
              try:
                  return json.loads(block)
              except Exception:
                  pass
      return []
  \<close>
  \<open>parse_response\<close> is the part of the loop body after the call of the model, for
  a response that is a string: \<open>Some v\<close> is \<^verbatim>\<open>return v\<close>, \<open>None\<close> is reaching the
  end of the body. \<open>attempts\<close> is the loop, over the number of iterations left.
\<close>

definition parse_response :: "decoder \<Rightarrow> string \<Rightarrow> json option" where
  "parse_response loads text =
     (case loads text of
        Some v \<Rightarrow> Some v
      | None \<Rightarrow>
          (case extract_json_block text of
             None \<Rightarrow> None
           | Some block \<Rightarrow> if block \<noteq> [] then loads block else None))"

fun attempts :: "'w llm \<Rightarrow> decoder \<Rightarrow> string \<Rightarrow> nat \<Rightarrow> 'w \<Rightarrow> (exn + json) \<times> 'w" where
  "attempts llm loads prompt 0 w = (Inr (JList []), w)"
| "attempts llm loads prompt (Suc n) w =
     (case llm prompt w of
        (Inl e, w') \<Rightarrow> (Inl e, w')
      | (Inr (NonText m), w') \<Rightarrow> (Inl (Exception m), w')
      | (Inr (Text text), w') \<Rightarrow>
          (case parse_response loads text of
             Some v \<Rightarrow> (Inr v, w')
           | None \<Rightarrow> attempts llm loads prompt n w'))"

definition generate_json_from_gemini ::
  "'w llm \<Rightarrow> decoder \<Rightarrow> string \<Rightarrow> int \<Rightarrow> 'w \<Rightarrow> (exn + json) \<times> 'w" where
  "generate_json_from_gemini llm loads prompt retries w =
     attempts llm loads prompt (nat retries) w"

section \<open>From a document to its rows\<close>

text \<open>
  The f-string of \<^verbatim>\<open>process_single_pdf_bytes\<close> formats \<^verbatim>\<open>COLUMNS\<close> with \<^verbatim>\<open>str\<close>, which
  writes a list as the \<^verbatim>\<open>repr\<close> of its elements between brackets, separated by a
  comma and a blank. \<^verbatim>\<open>repr\<close> of a string quotes it with \<^verbatim>\<open>'\<close>, or with \<^verbatim>\<open>"\<close> when
  the string holds a \<^verbatim>\<open>'\<close> and no \<^verbatim>\<open>"\<close>, and escapes the backslash, the quote in
  use and the control characters. Bytes from 0x80 on are copied: the only
  character outside ASCII that \<^verbatim>\<open>repr\<close> meets here is the printable U+20B9.
\<close>

definition hex_digit :: "nat \<Rightarrow> char" where
  "hex_digit d = (if d < 10 then char_of (48 + d) else char_of (87 + d))"

definition repr_char :: "char \<Rightarrow> char \<Rightarrow> string" where
  "repr_char q c =
     (let n = (of_char c :: nat)
      in if c = CHR 0x5C then [CHR 0x5C, CHR 0x5C]
         else if c = q then [CHR 0x5C, q]
         else if c = CHR 0x09 then [CHR 0x5C, CHR ''t'']
         else if c = CHR 0x0A then [CHR 0x5C, CHR ''n'']
         else if c = CHR 0x0D then [CHR 0x5C, CHR ''r'']
         else if n < 32 \<or> n = 127 then
           [CHR 0x5C, CHR ''x'', hex_digit (n div 16), hex_digit (n mod 16)]
         else [c])"

definition py_repr :: "string \<Rightarrow> string" where
  "py_repr s =
     (let q = (if CHR 0x27 \<in> set s \<and> CHR 0x22 \<notin> set s then CHR 0x22 else CHR 0x27)
      in q # concat (map (repr_char q) s) @ [q])"

text \<open>The characters that \<^verbatim>\<open>repr\<close> copies between single quotes.\<close>

definition plain_char :: "char \<Rightarrow> bool" where
  "plain_char c =
     (c \<noteq> CHR 0x5C \<and> c \<noteq> CHR 0x27 \<and> 32 \<le> (of_char c :: nat) \<and> (of_char c :: nat) \<noteq> 127)"

text \<open>\<^verbatim>\<open>sep.join(xs)\<close>.\<close>

fun join :: "string \<Rightarrow> string list \<Rightarrow> string" where
  "join sep [] = []"
| "join sep [x] = x"
| "join sep (x # y # ys) = x @ sep @ join sep (y # ys)"

definition py_str_list :: "string list \<Rightarrow> string" where
  "py_str_list xs = ''['' @ join '', '' (map py_repr xs) @ '']''"

definition nl :: string where
  "nl = [CHR 0x0A]"

definition prompt_head :: string where
  "prompt_head =
     nl
     @ ''You are an expert in export compliance. Extract material-wise line items from the given Shipping Bill.''
     @ nl
     @ ''Return a JSON array where each element is a JSON object representing one material line item.''
     @ nl
     @ nl
     @ ''Each object MUST contain the following keys (use empty string '' @ [CHR 0x22, CHR 0x22] @ '' where value is missing):''
     @ nl"

definition prompt_mid :: string where
  "prompt_mid =
     nl
     @ nl
     @ ''Return strictly valid JSON (an array). Do not include extra commentary or text outside the JSON array.''
     @ nl
     @ nl
     @ ''Document:''
     @ nl
     @ [CHR 0x22, CHR 0x22, CHR 0x22]"

definition prompt_tail :: string where
  "prompt_tail =
     [CHR 0x22, CHR 0x22, CHR 0x22]
     @ nl"

definition extraction_prompt :: "string \<Rightarrow> string" where
  "extraction_prompt full_text =
     prompt_head @ py_str_list COLUMNS @ prompt_mid @ full_text @ prompt_tail"

text \<open>
  \<^verbatim>\<open>
  cleaned_rows = []
  for r in rows:
      if not isinstance(r, dict): continue
      cleaned_rows.append({col: r.get(col, "") for col in COLUMNS})
  return cleaned_rows
  \<close>
  \<open>project_row cols r\<close> is the dict comprehension over \<open>cols\<close>, built by
  inserting the keys in order.
\<close>

type_synonym row = "(string \<times> json) list"

definition project_row :: "string list \<Rightarrow> (string \<times> json) list \<Rightarrow> row" where
  "project_row cols r = foldl (\<lambda>d col. dict_set d col (dict_get r col (JStr []))) [] cols"

fun cleaned_rows :: "json list \<Rightarrow> row list" where
  "cleaned_rows [] = []"
| "cleaned_rows (r # rows) =
     (case r of
        JDict kvs \<Rightarrow> project_row COLUMNS kvs # cleaned_rows rows
      | _ \<Rightarrow> cleaned_rows rows)"

definition process_single_pdf_bytes ::
  "loader \<Rightarrow> 'w llm \<Rightarrow> decoder \<Rightarrow> string \<Rightarrow> 'w \<Rightarrow> (exn + row list) \<times> 'w" where
  "process_single_pdf_bytes load llm loads pdf_bytes w =
     (case load pdf_bytes of
        Inl e \<Rightarrow> (Inl e, w)
      | Inr docs \<Rightarrow>
          (let full_text = join nl docs
           in case generate_json_from_gemini llm loads (extraction_prompt full_text) 3 w of
                (Inl e, w') \<Rightarrow> (Inl e, w')
              | (Inr extracted_raw, w') \<Rightarrow>
                  (Inr (cleaned_rows (normalize_extracted extracted_raw)), w')))"

section \<open>The batch\<close>

text \<open>
  \<^verbatim>\<open>
  def process_uploaded_pdfs(uploaded_files):
      all_rows = []; errors = []
      for f in uploaded_files:
          try:
              pdf_bytes = f.read()
              rows = process_single_pdf_bytes(pdf_bytes)
              if not rows:
                  errors.append((f.name, "No material items extracted (empty response)."))
              else:
                  all_rows.extend(rows)
          except Exception as e:
              errors.append((f.name, str(e)))
      return all_rows, errors
  \<close>
  The state of the loop is the pair of the two lists. \<open>read_and_process\<close> is the
  first two statements of the \<^verbatim>\<open>try\<close>, \<open>try_block\<close> its whole body, \<open>file_step\<close> adds
  the handler, and \<open>for_files\<close> is the loop, which
  would pass on an exception that a step let through.
\<close>

type_synonym batch = "row list \<times> (string \<times> string) list"

definition empty_response :: string where
  "empty_response = ''No material items extracted (empty response).''"

definition read_and_process ::
  "loader \<Rightarrow> 'w llm \<Rightarrow> decoder \<Rightarrow> uploaded_file \<Rightarrow> 'w \<Rightarrow> (exn + row list) \<times> 'w" where
  "read_and_process load llm loads f w =
     (case read f of
        Inl e \<Rightarrow> (Inl e, w)
      | Inr pdf_bytes \<Rightarrow> process_single_pdf_bytes load llm loads pdf_bytes w)"

definition try_block ::
  "loader \<Rightarrow> 'w llm \<Rightarrow> decoder \<Rightarrow> uploaded_file \<Rightarrow> batch \<Rightarrow> 'w \<Rightarrow> (exn + batch) \<times> 'w" where
  "try_block load llm loads f b w =
     (case b of (all_rows, errors) \<Rightarrow>
        (case read_and_process load llm loads f w of
           (Inl e, w') \<Rightarrow> (Inl e, w')
         | (Inr rows, w') \<Rightarrow>
             if rows = [] then (Inr (all_rows, errors @ [(name f, empty_response)]), w')
             else (Inr (all_rows @ rows, errors), w')))"

definition file_step ::
  "loader \<Rightarrow> 'w llm \<Rightarrow> decoder \<Rightarrow> uploaded_file \<Rightarrow> batch \<Rightarrow> 'w \<Rightarrow> (exn + batch) \<times> 'w" where
  "file_step load llm loads f b w =
     (case try_block load llm loads f b w of
        (Inl (Exception msg), w') \<Rightarrow> (Inr (fst b, snd b @ [(name f, msg)]), w')
      | (Inr b', w') \<Rightarrow> (Inr b', w'))"

fun for_files ::
  "loader \<Rightarrow> 'w llm \<Rightarrow> decoder \<Rightarrow> uploaded_file list \<Rightarrow> batch \<Rightarrow> 'w \<Rightarrow> (exn + batch) \<times> 'w" where
  "for_files load llm loads [] b w = (Inr b, w)"
| "for_files load llm loads (f # fs) b w =
     (case file_step load llm loads f b w of
        (Inl e, w') \<Rightarrow> (Inl e, w')
      | (Inr b', w') \<Rightarrow> for_files load llm loads fs b' w')"

definition process_uploaded_pdfs ::
  "loader \<Rightarrow> 'w llm \<Rightarrow> decoder \<Rightarrow> uploaded_file list \<Rightarrow> 'w \<Rightarrow> (exn + batch) \<times> 'w" where
  "process_uploaded_pdfs load llm loads uploaded_files w =
     for_files load llm loads uploaded_files ([], []) w"

section \<open>Test doubles\<close>

text \<open>
  A model that counts its calls, a model that plays back a script of outcomes
  (and raises once the script is over), and a loader for documents of one page
  that refuses an empty file.
\<close>

definition counting :: "'w llm \<Rightarrow> ('w \<times> nat) llm" where
  "counting llm prompt s =
     (case s of (w, k) \<Rightarrow> (case llm prompt w of (r, w') \<Rightarrow> (r, (w', Suc k))))"

text \<open>The outcomes of the first \<open>n\<close> calls of the model, and the world they leave.\<close>

fun invoke_n :: "'w llm \<Rightarrow> string \<Rightarrow> nat \<Rightarrow> 'w \<Rightarrow> (exn + content) list \<times> 'w" where
  "invoke_n llm prompt 0 w = ([], w)"
| "invoke_n llm prompt (Suc n) w =
     (case llm prompt w of (r, w') \<Rightarrow>
        (case invoke_n llm prompt n w' of (rs, w'') \<Rightarrow> (r # rs, w'')))"

fun scripted :: "(exn + content) list llm" where
  "scripted prompt [] = (Inl (Exception ''script exhausted''), [])"
| "scripted prompt (r # rs) = (r, rs)"

definition one_page :: loader where
  "one_page pdf_bytes =
     (if pdf_bytes = [] then Inl (Exception ''unreadable'') else Inr [pdf_bytes])"

section \<open>Properties of the shape normaliser\<close>

lemma first_dict_list_skip:
  "\<forall>u \<in> set pre. \<not> is_list u \<Longrightarrow> first_dict_list (pre @ vs) = first_dict_list vs"
proof (induction pre)
  case Nil
  show ?case by simp
next
  case (Cons u pre)
  then have "\<not> is_list u" by simp
  then have "first_dict_list (u # (pre @ vs)) = first_dict_list (pre @ vs)"
    by (cases u) simp_all
  with Cons show ?case by simp
qed

text \<open>
  C9. A mapping whose first list-valued entry, in insertion order, is the empty
  list is normalised to the empty sequence: the test that all elements are
  mappings holds vacuously, so the dict is neither wrapped nor searched further.
\<close>

theorem normalize_first_list_empty:
  assumes "map snd kvs = pre @ JList [] # post"
    and "\<forall>u \<in> set pre. \<not> is_list u"
  shows "normalize_extracted (JDict kvs) = []"
proof -
  have "first_dict_list (map snd kvs) = first_dict_list (JList [] # post)"
    using assms by (simp add: first_dict_list_skip)
  then show ?thesis by simp
qed

theorem normalize_first_list_empty_witness:
  "normalize_extracted (JDict [(''items'', JList [])]) = []
   \<and> normalize_extracted
       (JDict [(''n'', JInt 1), (''items'', JList []), (''rows'', JList [JDict []])]) = []"
proof -
  have a: "map snd [(''items'', JList [])] = [] @ JList [] # []" by simp
  have b: "map snd [(''n'', JInt 1), (''items'', JList []), (''rows'', JList [JDict []])]
           = [JInt 1] @ JList [] # [JList [JDict []]]" by simp
  have c: "\<forall>u \<in> set [JInt 1]. \<not> is_list u" by simp
  show ?thesis
    using normalize_first_list_empty [OF a] normalize_first_list_empty [OF b c] by simp
qed

lemma first_dict_list_none:
  "\<forall>u \<in> set vs. \<not> is_dict_list u \<Longrightarrow> first_dict_list vs = None"
proof (induction vs)
  case Nil
  show ?case by simp
next
  case (Cons u vs)
  then have "\<not> is_dict_list u" by simp
  then have "first_dict_list (u # vs) = first_dict_list vs"
    by (cases u) simp_all
  with Cons show ?case by simp
qed

lemma first_dict_list_pre:
  "\<forall>u \<in> set pre. \<not> is_dict_list u \<Longrightarrow> first_dict_list (pre @ vs) = first_dict_list vs"
proof (induction pre)
  case Nil
  show ?case by simp
next
  case (Cons u pre)
  then have "\<not> is_dict_list u" by simp
  then have "first_dict_list (u # (pre @ vs)) = first_dict_list (pre @ vs)"
    by (cases u) simp_all
  with Cons show ?case by simp
qed

lemma normalize_nested:
  assumes "map snd kvs = pre @ JList v # post" "list_all is_dict v"
    "\<forall>u \<in> set pre. \<not> is_dict_list u"
  shows "normalize_extracted (JDict kvs) = v"
proof -
  have "first_dict_list (map snd kvs) = first_dict_list (JList v # post)"
    using assms by (simp add: first_dict_list_pre)
  with assms(2) show ?thesis by simp
qed

lemma normalize_wrap:
  assumes "\<forall>u \<in> set (map snd kvs). \<not> is_dict_list u"
  shows "normalize_extracted (JDict kvs) = [JDict kvs]"
  using first_dict_list_none [OF assms] by simp

lemma normalize_other:
  "\<not> is_list x \<Longrightarrow> \<not> is_dict x \<Longrightarrow> normalize_extracted x = []"
  by (cases x) simp_all

text \<open>
  C4, as the code has it. The shape normaliser returns every list unchanged,
  whatever its elements are (entries that are not mappings are dropped later,
  by the loop that builds the rows). For a mapping it returns the first value,
  in insertion order, that is a list made of mappings only, and wraps the
  mapping as a one-element list when there is none. Every value that is neither
  a list nor a mapping (a string, a number, a boolean, null) gives the empty
  list.
\<close>

theorem normalize_shapes:
  "normalize_extracted (JList xs) = xs
   \<and> (map snd kvs = pre @ JList v # post \<longrightarrow> list_all is_dict v
        \<longrightarrow> (\<forall>u \<in> set pre. \<not> is_dict_list u) \<longrightarrow> normalize_extracted (JDict kvs) = v)
   \<and> ((\<forall>u \<in> set (map snd kvs). \<not> is_dict_list u)
        \<longrightarrow> normalize_extracted (JDict kvs) = [JDict kvs])
   \<and> (\<not> is_list x \<longrightarrow> \<not> is_dict x \<longrightarrow> normalize_extracted x = [])"
  using normalize_nested normalize_wrap normalize_other by simp

theorem normalize_shapes_witness:
  "normalize_extracted (JList [JDict [(''a'', JInt 1)], JDict [(''a'', JInt 2)]])
     = [JDict [(''a'', JInt 1)], JDict [(''a'', JInt 2)]]
   \<and> normalize_extracted
       (JDict [(''x'', JInt 1), (''rows'', JList [JDict [(''a'', JInt 1)], JDict [(''a'', JInt 2)]])])
     = [JDict [(''a'', JInt 1)], JDict [(''a'', JInt 2)]]
   \<and> normalize_extracted (JDict [(''x'', JInt 1), (''tags'', JList [JStr ''t''])])
     = [JDict [(''x'', JInt 1), (''tags'', JList [JStr ''t''])]]
   \<and> normalize_extracted (JStr ''text'') = []
   \<and> normalize_extracted (JInt 7) = []"
  using normalize_shapes
    [of "[JDict [(''a'', JInt 1)], JDict [(''a'', JInt 2)]]"
        "[(''x'', JInt 1), (''rows'', JList [JDict [(''a'', JInt 1)], JDict [(''a'', JInt 2)]])]"
        "[JInt 1]" "[JDict [(''a'', JInt 1)], JDict [(''a'', JInt 2)]]" "[]" "JStr ''text''"]
    normalize_shapes
    [of "[]" "[(''x'', JInt 1), (''tags'', JList [JStr ''t''])]" "[]" "[]" "[]" "JInt 7"]
  by simp

text \<open>
  C4 as stated fails: a sequence whose elements are not mappings is not turned
  into the empty sequence, it is returned as it is.
\<close>

theorem normalize_list_counterexample:
  "normalize_extracted (JList [JInt 1, JStr ''x'']) \<noteq> []"
  by simp

section \<open>Properties of the schema reconciler\<close>

lemma dict_set_new: "k \<notin> fst ` set d \<Longrightarrow> dict_set d k v = d @ [(k, v)]"
  by (induction d) auto

lemma foldl_dict_set:
  "distinct cols \<Longrightarrow> set cols \<inter> fst ` set d = {} \<Longrightarrow>
   foldl (\<lambda>d col. dict_set d col (g col)) d cols = d @ map (\<lambda>col. (col, g col)) cols"
proof (induction cols arbitrary: d)
  case Nil
  show ?case by simp
next
  case (Cons c cols)
  have new: "c \<notin> fst ` set d" using Cons.prems by auto
  have "set cols \<inter> fst ` set (d @ [(c, g c)]) = {}" using Cons.prems by auto
  with Cons have "foldl (\<lambda>d col. dict_set d col (g col)) (d @ [(c, g c)]) cols
      = (d @ [(c, g c)]) @ map (\<lambda>col. (col, g col)) cols" by simp
  then show ?case by (simp add: dict_set_new [OF new])
qed

lemma project_row_map:
  "distinct cols \<Longrightarrow> project_row cols r = map (\<lambda>col. (col, dict_get r col (JStr []))) cols"
  unfolding project_row_def using foldl_dict_set [of cols "[]"] by simp

lemma COLUMNS_distinct: "distinct COLUMNS"
  unfolding COLUMNS_def by simp

lemma COLUMNS_length: "length COLUMNS = 51"
  unfolding COLUMNS_def by simp

lemma map_of_project:
  "distinct cols \<Longrightarrow> map_of (project_row cols r) k
     = (if k \<in> set cols then Some (dict_get r k (JStr [])) else None)"
  by (simp add: project_row_map map_of_map_restrict restrict_map_def)

lemma project_row_COLUMNS: "map fst (project_row COLUMNS r) = COLUMNS"
  by (simp add: project_row_map [OF COLUMNS_distinct] comp_def)

lemma cleaned_rows_keys:
  "\<forall>row \<in> set (cleaned_rows xs). row \<in> project_row COLUMNS ` {kvs. JDict kvs \<in> set xs}"
proof (induction xs)
  case Nil
  show ?case by simp
next
  case (Cons x xs)
  then show ?case by (cases x) auto
qed

lemma single_pdf_rows:
  assumes "process_single_pdf_bytes load llm loads b w = (Inr rows, w')"
  shows "\<exists>v. rows = cleaned_rows (normalize_extracted v)"
  using assms unfolding process_single_pdf_bytes_def
  by (auto simp: Let_def split: sum.splits prod.splits)

lemma loads_sb123:
  "json_loads ''[{\"SB NO.\": \"123\", \"extra\": \"x\"}]''
     = Some (JList [JDict [(''SB NO.'', JStr ''123''), (''extra'', JStr ''x'')]])"
  by code_simp

text \<open>
  C1, as the code has it. The keys of every row that the projection builds are
  the names of \<^verbatim>\<open>COLUMNS\<close>, in the order of \<^verbatim>\<open>COLUMNS\<close>, and \<^verbatim>\<open>COLUMNS\<close> has 51
  distinct names: a name that the candidate lacks is bound to the empty string,
  and a key of the candidate that is not in \<^verbatim>\<open>COLUMNS\<close> is not in the row. This
  holds of every row that \<^verbatim>\<open>process_single_pdf_bytes\<close> returns.
\<close>

theorem record_keys:
  "map fst (project_row COLUMNS r) = COLUMNS
   \<and> fst ` set (project_row COLUMNS r) = set COLUMNS
   \<and> distinct COLUMNS \<and> length COLUMNS = 51
   \<and> (\<forall>col \<in> set COLUMNS. map_of r col = None
         \<longrightarrow> map_of (project_row COLUMNS r) col = Some (JStr []))
   \<and> (\<forall>k. k \<notin> set COLUMNS \<longrightarrow> map_of (project_row COLUMNS r) k = None)
   \<and> (process_single_pdf_bytes load llm loads b w = (Inr rows, w')
         \<longrightarrow> (\<forall>row \<in> set rows. map fst row = COLUMNS))"
proof -
  have keys: "map fst (project_row COLUMNS r) = COLUMNS" for r
    by (rule project_row_COLUMNS)
  have "set (map fst (project_row COLUMNS r)) = set COLUMNS"
    by (simp only: keys)
  then have keyset: "fst ` set (project_row COLUMNS r) = set COLUMNS" by simp
  have absent: "\<forall>col \<in> set COLUMNS. map_of r col = None
         \<longrightarrow> map_of (project_row COLUMNS r) col = Some (JStr [])"
    by (simp add: map_of_project [OF COLUMNS_distinct] dict_get_def)
  have dropped: "\<forall>k. k \<notin> set COLUMNS \<longrightarrow> map_of (project_row COLUMNS r) k = None"
    by (simp add: map_of_project [OF COLUMNS_distinct])
  have emitted: "process_single_pdf_bytes load llm loads b w = (Inr rows, w')
         \<longrightarrow> (\<forall>row \<in> set rows. map fst row = COLUMNS)"
  proof (intro impI ballI)
    fix row
    assume run: "process_single_pdf_bytes load llm loads b w = (Inr rows, w')"
      and "row \<in> set rows"
    with single_pdf_rows [OF run] cleaned_rows_keys
    obtain kvs where "row = project_row COLUMNS kvs" by blast
    then show "map fst row = COLUMNS" by (simp only: keys)
  qed
  from keys keyset COLUMNS_distinct COLUMNS_length absent dropped emitted
  show ?thesis by blast
qed

theorem record_keys_witness:
  "process_single_pdf_bytes one_page scripted json_loads ''doc''
      [Inr (Text ''[{\"SB NO.\": \"123\", \"extra\": \"x\"}]'')]
     = (Inr [project_row COLUMNS [(''SB NO.'', JStr ''123''), (''extra'', JStr ''x'')]], [])
   \<and> map fst (project_row COLUMNS [(''SB NO.'', JStr ''123''), (''extra'', JStr ''x'')]) = COLUMNS
   \<and> ''Qty'' \<in> set COLUMNS
   \<and> map_of [(''SB NO.'', JStr ''123''), (''extra'', JStr ''x'')] ''Qty'' = None
   \<and> map_of (project_row COLUMNS [(''SB NO.'', JStr ''123''), (''extra'', JStr ''x'')]) ''Qty''
       = Some (JStr [])
   \<and> ''extra'' \<notin> set COLUMNS
   \<and> map_of (project_row COLUMNS [(''SB NO.'', JStr ''123''), (''extra'', JStr ''x'')]) ''extra''
       = None"
proof -
  let ?r = "[(''SB NO.'', JStr ''123''), (''extra'', JStr ''x'')]"
  have run: "process_single_pdf_bytes one_page scripted json_loads ''doc''
      [Inr (Text ''[{\"SB NO.\": \"123\", \"extra\": \"x\"}]'')]
     = (Inr [project_row COLUMNS ?r], [])"
    by (simp add: process_single_pdf_bytes_def one_page_def generate_json_from_gemini_def
        parse_response_def loads_sb123 eval_nat_numeral)
  have qty: "''Qty'' \<in> set COLUMNS" by (simp add: COLUMNS_def)
  have extra: "''extra'' \<notin> set COLUMNS" by (simp add: COLUMNS_def)
  have none: "map_of ?r ''Qty'' = None" by simp
  from record_keys [of ?r one_page scripted json_loads "''doc''"
      "[Inr (Text ''[{\"SB NO.\": \"123\", \"extra\": \"x\"}]'')]"
      "[project_row COLUMNS ?r]" "[]"] run qty extra none
  show ?thesis by simp
qed

text \<open>
  C1 as stated fails in its count: the rows have 51 keys, since \<^verbatim>\<open>COLUMNS\<close> has 51
  entries, not 48.
\<close>

theorem record_keys_counterexample:
  "length (map fst (project_row COLUMNS [(''SB NO.'', JStr ''123''), (''extra'', JStr ''x'')]))
     \<noteq> 48"
  by (simp add: project_row_COLUMNS COLUMNS_length)

text \<open>
  C6, as the code has it. For every name of \<^verbatim>\<open>COLUMNS\<close> the row holds the
  candidate's value for that name as it is, with no conversion, and the empty
  string when the candidate has no such key. A value that is null or a number in
  the candidate is null or that number in the row.
\<close>

theorem copied_values:
  "\<forall>col \<in> set COLUMNS.
     map_of (project_row COLUMNS r) col
       = Some (case map_of r col of Some v \<Rightarrow> v | None \<Rightarrow> JStr [])"
  by (simp add: map_of_project [OF COLUMNS_distinct] dict_get_def)

theorem copied_values_witness:
  "''Qty'' \<in> set COLUMNS
   \<and> map_of (project_row COLUMNS [(''Qty'', JInt 5), (''Unit'', JNull)]) ''Qty'' = Some (JInt 5)
   \<and> ''Unit'' \<in> set COLUMNS
   \<and> map_of (project_row COLUMNS [(''Qty'', JInt 5), (''Unit'', JNull)]) ''Unit'' = Some JNull
   \<and> ''COUNTRY'' \<in> set COLUMNS
   \<and> map_of (project_row COLUMNS [(''Qty'', JInt 5), (''Unit'', JNull)]) ''COUNTRY''
       = Some (JStr [])"
proof -
  have a: "''Qty'' \<in> set COLUMNS" by (simp add: COLUMNS_def)
  have b: "''Unit'' \<in> set COLUMNS" by (simp add: COLUMNS_def)
  have c: "''COUNTRY'' \<in> set COLUMNS" by (simp add: COLUMNS_def)
  from copied_values [of "[(''Qty'', JInt 5), (''Unit'', JNull)]"] a b c
  show ?thesis by simp
qed

text \<open>
  C6 as stated fails: a row can hold null, and a number, where the claim has a
  string.
\<close>

theorem copied_values_counterexample:
  "map_of (project_row COLUMNS [(''Qty'', JInt 5), (''Unit'', JNull)]) ''Unit'' = Some JNull
   \<and> \<not> is_str JNull
   \<and> map_of (project_row COLUMNS [(''Qty'', JInt 5), (''Unit'', JNull)]) ''Qty'' = Some (JInt 5)
   \<and> \<not> is_str (JInt 5)"
proof -
  have a: "''Qty'' \<in> set COLUMNS" by (simp add: COLUMNS_def)
  have b: "''Unit'' \<in> set COLUMNS" by (simp add: COLUMNS_def)
  show ?thesis
    by (simp add: map_of_project [OF COLUMNS_distinct] dict_get_def a b)
qed

section \<open>Properties of the prompt builder\<close>

lemma repr_plain_char: "plain_char c \<Longrightarrow> repr_char (CHR 0x27) c = [c]"
  by (auto simp: repr_char_def plain_char_def Let_def)

lemma concat_repr_plain:
  "\<forall>c \<in> set s. plain_char c \<Longrightarrow> concat (map (repr_char (CHR 0x27)) s) = s"
  by (induction s) (simp_all add: repr_plain_char)

lemma py_repr_plain:
  assumes "\<forall>c \<in> set s. plain_char c"
  shows "py_repr s = CHR 0x27 # s @ [CHR 0x27]"
proof -
  have "CHR 0x27 \<notin> set s" using assms by (auto simp: plain_char_def)
  then show ?thesis by (simp add: py_repr_def Let_def concat_repr_plain [OF assms])
qed

lemma sublist_join: "x \<in> set xs \<Longrightarrow> sublist x (join sep xs)"
proof (induction sep xs rule: join.induct)
  case (1 sep)
  then show ?case by simp
next
  case (2 sep y)
  then show ?case by simp
next
  case (3 sep y z zs)
  show ?case
  proof (cases "x = y")
    case True
    then show ?thesis by simp
  next
    case False
    with 3 have "sublist x (join sep (z # zs))" by simp
    then have "sublist x ((y @ sep) @ join sep (z # zs))"
      by (rule sublist_order.order.trans) (rule sublist_append_leftI)
    then show ?thesis by simp
  qed
qed

lemma sublist_py_str_list:
  assumes "c \<in> set cs" and "\<forall>x \<in> set c. plain_char x"
  shows "sublist c (py_str_list cs)"
proof -
  have "sublist c (py_repr c)"
    using sublist_appendI [of c "[CHR 0x27]" "[CHR 0x27]"] by (simp add: py_repr_plain [OF assms(2)])
  moreover have "sublist (py_repr c) (join '', '' (map py_repr cs))"
    using assms(1) by (intro sublist_join) simp
  moreover have "sublist (join '', '' (map py_repr cs)) (py_str_list cs)"
    unfolding py_str_list_def by (rule sublist_appendI)
  ultimately show ?thesis
    by (meson sublist_order.order.trans)
qed

lemma COLUMNS_plain: "\<forall>c \<in> set COLUMNS. \<forall>x \<in> set c. plain_char x"
  unfolding COLUMNS_def by (simp add: plain_char_def)

text \<open>
  C7. For every document text, the empty one included, the prompt is a string
  (the builder is a total function with no failing branch) that contains every
  name of \<^verbatim>\<open>COLUMNS\<close> as a contiguous substring, and the document text as a
  contiguous substring.
\<close>

theorem prompt_contents:
  "(\<forall>c \<in> set COLUMNS. sublist c (extraction_prompt full_text))
   \<and> sublist full_text (extraction_prompt full_text)"
proof
  show "\<forall>c \<in> set COLUMNS. sublist c (extraction_prompt full_text)"
  proof
    fix c
    assume "c \<in> set COLUMNS"
    then have "sublist c (py_str_list COLUMNS)"
      using COLUMNS_plain by (intro sublist_py_str_list) auto
    moreover have "sublist (py_str_list COLUMNS) (extraction_prompt full_text)"
      unfolding extraction_prompt_def by (rule sublist_appendI)
    ultimately show "sublist c (extraction_prompt full_text)"
      by (rule sublist_order.order.trans)
  qed
next
  have "extraction_prompt full_text
      = (prompt_head @ py_str_list COLUMNS @ prompt_mid) @ full_text @ prompt_tail"
    unfolding extraction_prompt_def by simp
  then show "sublist full_text (extraction_prompt full_text)"
    by (simp only: sublist_appendI)
qed

theorem prompt_contents_witness:
  "''SB NO.'' \<in> set COLUMNS \<and> sublist ''SB NO.'' (extraction_prompt [])
   \<and> ''BOOKING IN SAP'' \<in> set COLUMNS \<and> sublist ''BOOKING IN SAP'' (extraction_prompt ''page 1'')
   \<and> sublist ''page 1'' (extraction_prompt ''page 1'')"
proof -
  have a: "''SB NO.'' \<in> set COLUMNS" by (simp add: COLUMNS_def)
  have b: "''BOOKING IN SAP'' \<in> set COLUMNS" by (simp add: COLUMNS_def)
  from prompt_contents [of "[]"] prompt_contents [of "''page 1''"] a b
  show ?thesis by blast
qed

section \<open>Properties of the response parser\<close>

lemma upto_last_split:
  assumes "c \<in> set s"
  shows "\<exists>suf. s = upto_last c s @ suf \<and> c \<notin> set suf \<and> upto_last c s \<noteq> []
           \<and> last (upto_last c s) = c"
proof -
  let ?P = "\<lambda>x. x \<noteq> c"
  let ?d = "dropWhile ?P (rev s)"
  let ?t = "takeWhile ?P (rev s)"
  have "rev ?d @ rev ?t = rev (?t @ ?d)" by (simp only: rev_append)
  also have "\<dots> = s" by (simp only: takeWhile_dropWhile_id rev_rev_ident)
  finally have split: "s = upto_last c s @ rev ?t" by (simp only: upto_last_def)
  have notin: "c \<notin> set (rev ?t)" using set_takeWhileD [of c ?P "rev s"] by auto
  have ne: "?d \<noteq> []" using assms by (simp add: dropWhile_eq_Nil_conv)
  then have "hd ?d = c" using hd_dropWhile [of ?P "rev s"] by simp
  with ne have lst: "last (upto_last c s) = c" by (simp add: upto_last_def last_rev)
  have ne': "upto_last c s \<noteq> []" using ne by (simp add: upto_last_def)
  from split notin ne' lst show ?thesis by blast
qed

lemma extract_block_none:
  "extract_json_block t = None \<longleftrightarrow> (\<forall>i < length t. \<not> opens (drop i t))"
proof (induction t)
  case Nil
  show ?case by simp
next
  case (Cons c cs)
  show ?case
  proof (cases "opens (c # cs)")
    case True
    then have l: "extract_json_block (c # cs) \<noteq> None" by auto
    have "0 < length (c # cs) \<and> opens (drop 0 (c # cs))" using True by simp
    then have "\<exists>i < length (c # cs). opens (drop i (c # cs))" by (rule exI [of _ 0])
    with l show ?thesis by blast
  next
    case False
    then have "extract_json_block (c # cs) = extract_json_block cs" by auto
    moreover have "(\<forall>i < length (c # cs). \<not> opens (drop i (c # cs)))
        \<longleftrightarrow> (\<forall>i < length cs. \<not> opens (drop i cs))"
      using False by (auto simp: less_Suc_eq_0_disj)
    ultimately show ?thesis using Cons.IH by simp
  qed
qed

lemma extract_block_some:
  "extract_json_block t = Some b \<Longrightarrow>
   \<exists>pre suf. t = pre @ b @ suf \<and> (\<forall>i < length pre. \<not> opens (drop i t))
     \<and> (hd b = CHR ''['' \<or> hd b = CHR ''{'') \<and> 2 \<le> length b
     \<and> last b = closer (hd b) \<and> closer (hd b) \<notin> set suf"
proof (induction t)
  case Nil
  then show ?case by simp
next
  case (Cons c cs)
  show ?case
  proof (cases "opens (c # cs)")
    case True
    then have br: "c = CHR ''['' \<or> c = CHR ''{''" and cl: "closer c \<in> set cs"
      by (auto simp: closer_def)
    from True Cons.prems have b: "b = c # upto_last (closer c) cs"
      by (auto simp: closer_def)
    from upto_last_split [OF cl] obtain suf where
      suf: "cs = upto_last (closer c) cs @ suf" "closer c \<notin> set suf"
        "upto_last (closer c) cs \<noteq> []" "last (upto_last (closer c) cs) = closer c"
      by blast
    have "c # cs = [] @ b @ suf" using suf(1) b by simp
    moreover have "2 \<le> length b" using suf(3) b by (cases "upto_last (closer c) cs") simp_all
    moreover have "last b = closer (hd b)" using suf(3,4) b by simp
    moreover have "closer (hd b) \<notin> set suf" using suf(2) b by simp
    moreover have "hd b = CHR ''['' \<or> hd b = CHR ''{''" using br b by simp
    ultimately show ?thesis by (intro exI [of _ "[]"] exI [of _ suf]) simp
  next
    case False
    then have "extract_json_block (c # cs) = extract_json_block cs" by auto
    with Cons obtain pre suf where
      ps: "cs = pre @ b @ suf" "\<forall>i < length pre. \<not> opens (drop i cs)"
        "hd b = CHR ''['' \<or> hd b = CHR ''{''" "2 \<le> length b"
        "last b = closer (hd b)" "closer (hd b) \<notin> set suf"
      by auto
    have "\<forall>i < length (c # pre). \<not> opens (drop i (c # cs))"
      using False ps(2) by (auto simp: less_Suc_eq_0_disj)
    moreover have "c # cs = (c # pre) @ b @ suf" using ps(1) by simp
    ultimately show ?thesis using ps(3-6) by blast
  qed
qed

lemma extract_block_nonempty: "extract_json_block t = Some b \<Longrightarrow> b \<noteq> []"
  using extract_block_some [of t b] by auto

lemma parse_response_block:
  "loads t = None \<Longrightarrow> extract_json_block t = Some b \<Longrightarrow> parse_response loads t = loads b"
  using extract_block_nonempty [of t b] by (simp add: parse_response_def)

lemma single_attempt_fails:
  assumes "llm prompt w = (Inr (Text text), w')" "parse_response loads text = None"
  shows "generate_json_from_gemini llm loads prompt 1 w = (Inr (JList []), w')"
  using assms by (simp add: generate_json_from_gemini_def)

lemma sure_whole:
  "json_loads ''Sure! Here is the data: [{\"SB NO.\":\"1\"}] Hope that helps!'' = None"
  by code_simp

lemma sure_block:
  "extract_json_block ''Sure! Here is the data: [{\"SB NO.\":\"1\"}] Hope that helps!''
     = Some ''[{\"SB NO.\":\"1\"}]''"
  by code_simp

text \<open>
  C5, as the code has it. One attempt first decodes the whole text and returns
  the value when that works. Only when it fails does it decode a block of the
  text: the block starts at the first position that holds a \<^verbatim>\<open>[\<close> followed
  somewhere by a \<^verbatim>\<open>]\<close>, or a \<^verbatim>\<open>{\<close> followed somewhere by a \<^verbatim>\<open>}\<close>, and it ends at
  the last such closing bracket of the text; an opening bracket that nothing
  closes is passed over. When there is no such position, or the block does not
  decode, the attempt yields nothing and raises nothing, and a single attempt
  that yields nothing makes the invoker return the empty sequence. The text
  \<^verbatim>\<open>Sure! Here is the data: [{"SB NO.":"1"}] Hope that helps!\<close> does not decode as
  a whole, and decodes through its block to one mapping.
\<close>

theorem response_parser:
  "(loads text = Some v \<longrightarrow> parse_response loads text = Some v)
   \<and> (loads text = None \<longrightarrow> extract_json_block text = Some b \<longrightarrow>
        parse_response loads text = loads b
        \<and> (\<exists>pre suf. text = pre @ b @ suf \<and> (\<forall>i < length pre. \<not> opens (drop i text))
              \<and> (hd b = CHR ''['' \<or> hd b = CHR ''{'') \<and> 2 \<le> length b
              \<and> last b = closer (hd b) \<and> closer (hd b) \<notin> set suf))
   \<and> (loads text = None \<longrightarrow> extract_json_block text = None \<longrightarrow>
        parse_response loads text = None \<and> (\<forall>i < length text. \<not> opens (drop i text)))
   \<and> (llm prompt w = (Inr (Text text), w') \<longrightarrow> parse_response loads text = None \<longrightarrow>
        generate_json_from_gemini llm loads prompt 1 w = (Inr (JList []), w'))
   \<and> json_loads ''Sure! Here is the data: [{\"SB NO.\":\"1\"}] Hope that helps!'' = None
   \<and> extract_json_block ''Sure! Here is the data: [{\"SB NO.\":\"1\"}] Hope that helps!''
        = Some ''[{\"SB NO.\":\"1\"}]''
   \<and> parse_response json_loads ''Sure! Here is the data: [{\"SB NO.\":\"1\"}] Hope that helps!''
        = Some (JList [JDict [(''SB NO.'', JStr ''1'')]])"
proof -
  have whole: "loads text = Some v \<longrightarrow> parse_response loads text = Some v"
    by (simp add: parse_response_def)
  have block: "loads text = None \<longrightarrow> extract_json_block text = Some b \<longrightarrow>
        parse_response loads text = loads b
        \<and> (\<exists>pre suf. text = pre @ b @ suf \<and> (\<forall>i < length pre. \<not> opens (drop i text))
              \<and> (hd b = CHR ''['' \<or> hd b = CHR ''{'') \<and> 2 \<le> length b
              \<and> last b = closer (hd b) \<and> closer (hd b) \<notin> set suf)"
    using parse_response_block [of loads "text" b] extract_block_some [of "text" b] by blast
  have none: "loads text = None \<longrightarrow> extract_json_block text = None \<longrightarrow>
        parse_response loads text = None \<and> (\<forall>i < length text. \<not> opens (drop i text))"
  proof (intro impI conjI)
    assume a: "loads text = None" and b: "extract_json_block text = None"
    show "parse_response loads text = None" by (simp add: parse_response_def a b)
    show "\<forall>i < length text. \<not> opens (drop i text)" using b extract_block_none by blast
  qed
  have quiet: "llm prompt w = (Inr (Text text), w') \<longrightarrow> parse_response loads text = None \<longrightarrow>
        generate_json_from_gemini llm loads prompt 1 w = (Inr (JList []), w')"
    using single_attempt_fails [of llm prompt w "text" w' loads] by blast
  have example: "parse_response json_loads
        ''Sure! Here is the data: [{\"SB NO.\":\"1\"}] Hope that helps!''
        = Some (JList [JDict [(''SB NO.'', JStr ''1'')]])"
    by code_simp
  from whole block none quiet sure_whole sure_block example show ?thesis by blast
qed


theorem response_parser_witness:
  "parse_response json_loads ''[1]'' = Some (JList [JInt 1])
   \<and> json_loads ''x [1] y'' = None
   \<and> extract_json_block ''x [1] y'' = Some ''[1]''
   \<and> parse_response json_loads ''x [1] y'' = json_loads ''[1]''
   \<and> json_loads ''no data'' = None
   \<and> extract_json_block ''no data'' = None
   \<and> parse_response json_loads ''no data'' = None
   \<and> generate_json_from_gemini scripted json_loads ''p'' 1 [Inr (Text ''no data'')]
       = (Inr (JList []), [])"
proof -
  have a: "json_loads ''[1]'' = Some (JList [JInt 1])" by code_simp
  have b: "json_loads ''x [1] y'' = None" by code_simp
  have c: "extract_json_block ''x [1] y'' = Some ''[1]''" by code_simp
  have d: "json_loads ''no data'' = None" by code_simp
  have e: "extract_json_block ''no data'' = None" by code_simp
  have f: "scripted ''p'' [Inr (Text ''no data'')] = (Inr (Text ''no data''), [])" by simp
  note a' = response_parser [of json_loads "''[1]''" "JList [JInt 1]",
      THEN conjunct1, THEN mp, OF a]
  note c' = response_parser [of json_loads "''x [1] y''" _ "''[1]''",
      THEN conjunct2, THEN conjunct1, THEN mp, THEN mp, OF b c, THEN conjunct1]
  note e' = response_parser [of json_loads "''no data''",
      THEN conjunct2, THEN conjunct2, THEN conjunct1, THEN mp, THEN mp, OF d e, THEN conjunct1]
  note f' = response_parser [of json_loads "''no data''" _ _ scripted "''p''"
      "[Inr (Text ''no data'')]" "[]",
      THEN conjunct2, THEN conjunct2, THEN conjunct2, THEN conjunct1, THEN mp, THEN mp, OF f e']
  show ?thesis by (rule conjI a' b c c' d e e' f')+
qed

text \<open>
  C5 as stated fails: in the truncated answer \<^verbatim>\<open>[{"SB NO.":"1"}\<close> the first
  bracket is a \<^verbatim>\<open>[\<close> that nothing closes, so there is no span from the first
  bracket to its last matching one, yet the attempt succeeds, on the block that
  starts at the second character.
\<close>

theorem response_parser_counterexample:
  "hd ''[{\"SB NO.\":\"1\"}'' = CHR ''[''
   \<and> spec_bracket_span ''[{\"SB NO.\":\"1\"}'' = None
   \<and> json_loads ''[{\"SB NO.\":\"1\"}'' = None
   \<and> extract_json_block ''[{\"SB NO.\":\"1\"}'' = Some ''{\"SB NO.\":\"1\"}''
   \<and> parse_response json_loads ''[{\"SB NO.\":\"1\"}'' = Some (JDict [(''SB NO.'', JStr ''1'')])"
proof -
  have a: "hd ''[{\"SB NO.\":\"1\"}'' = CHR ''[''" by simp
  have b: "spec_bracket_span ''[{\"SB NO.\":\"1\"}'' = None" by code_simp
  have c: "json_loads ''[{\"SB NO.\":\"1\"}'' = None" by code_simp
  have d: "extract_json_block ''[{\"SB NO.\":\"1\"}'' = Some ''{\"SB NO.\":\"1\"}''" by code_simp
  have e: "parse_response json_loads ''[{\"SB NO.\":\"1\"}''
      = Some (JDict [(''SB NO.'', JStr ''1'')])" by code_simp
  show ?thesis by (rule conjI a b c d e)+
qed

section \<open>Properties of the model invoker\<close>

lemma attempts_skip:
  "invoke_n llm p (length ts) w = (map (\<lambda>t. Inr (Text t)) ts, w1) \<Longrightarrow>
   \<forall>t \<in> set ts. parse_response loads t = None \<Longrightarrow>
   attempts llm loads p (length ts + m) w = attempts llm loads p m w1"
proof (induction ts arbitrary: w)
  case Nil
  then show ?case by simp
next
  case (Cons t ts)
  obtain r w' where step: "llm p w = (r, w')" by (cases "llm p w")
  obtain rs w'' where rest: "invoke_n llm p (length ts) w' = (rs, w'')"
    by (cases "invoke_n llm p (length ts) w'")
  from Cons.prems(1) step rest have r: "r = Inr (Text t)"
    and rs: "rs = map (\<lambda>t. Inr (Text t)) ts" and w'': "w'' = w1" by simp_all
  from Cons.prems(2) have t: "parse_response loads t = None"
    and ts: "\<forall>t \<in> set ts. parse_response loads t = None" by simp_all
  have "attempts llm loads p (length (t # ts) + m) w = attempts llm loads p (length ts + m) w'"
    using step r t by simp
  also have "\<dots> = attempts llm loads p m w1"
    using Cons.IH [of w'] rest rs w'' ts by simp
  finally show ?case .
qed

lemma invoke_n_length: "length (fst (invoke_n llm p n w)) = n"
proof (induction n arbitrary: w)
  case 0
  show ?case by simp
next
  case (Suc n)
  obtain r w' where step: "llm p w = (r, w')" by (cases "llm p w")
  obtain rs w'' where rest: "invoke_n llm p n w' = (rs, w'')"
    by (cases "invoke_n llm p n w'")
  from Suc.IH [of w'] rest have "length rs = n" by simp
  with step rest show ?case by simp
qed

lemma invoke_n_counting:
  "invoke_n (counting llm) p n (w, k)
     = (case invoke_n llm p n w of (rs, w') \<Rightarrow> (rs, (w', k + n)))"
  by (induction n arbitrary: w k) (simp_all add: counting_def split: prod.splits)

lemma attempts_first_success:
  assumes "invoke_n llm p (length ts) w = (map (\<lambda>t. Inr (Text t)) ts, w1)"
    and "\<forall>t \<in> set ts. parse_response loads t = None"
    and "llm p w1 = (Inr (Text t), w2)" and "parse_response loads t = Some v"
    and "length ts < n"
  shows "attempts llm loads p n w = (Inr v, w2)"
proof -
  from assms(5) obtain m where n: "n = length ts + Suc m"
    by (metis add_Suc_right less_iff_Suc_add)
  have "attempts llm loads p n w = attempts llm loads p (Suc m) w1"
    unfolding n by (rule attempts_skip [OF assms(1,2)])
  also have "\<dots> = (Inr v, w2)" using assms(3,4) by simp
  finally show ?thesis .
qed

lemma attempts_exhaust:
  assumes "invoke_n llm p n w = (map (\<lambda>t. Inr (Text t)) ts, w1)"
    and "\<forall>t \<in> set ts. parse_response loads t = None"
  shows "attempts llm loads p n w = (Inr (JList []), w1)"
proof -
  have n: "n = length ts" using invoke_n_length [of llm p n w] assms(1) by simp
  have "attempts llm loads p (length ts + 0) w = attempts llm loads p 0 w1"
    using assms unfolding n by (rule attempts_skip)
  then show ?thesis by (simp add: n)
qed

text \<open>
  C3, as the code has it. The invoker calls the model once per attempt. When
  the first attempts return text that yields nothing and the next attempt,
  still within the cap, returns text that decodes (as a whole or through its
  block), the invoker returns that decoded value, empty or not, and has called
  the model exactly as many times as the number of that attempt. When the cap
  is not negative and every attempt up to it returns text that yields nothing,
  the invoker returns the empty sequence, raises nothing, and has called the
  model exactly as many times as the cap.
\<close>

theorem model_invoker:
  "(invoke_n llm prompt (length ts) w = (map (\<lambda>t. Inr (Text t)) ts, w1)
      \<longrightarrow> (\<forall>t \<in> set ts. parse_response loads t = None)
      \<longrightarrow> llm prompt w1 = (Inr (Text t), w2) \<longrightarrow> parse_response loads t = Some v
      \<longrightarrow> int (length ts) < retries
      \<longrightarrow> generate_json_from_gemini (counting llm) loads prompt retries (w, 0)
            = (Inr v, (w2, length ts + 1)))
   \<and> (invoke_n llm prompt (nat retries) w = (map (\<lambda>t. Inr (Text t)) us, w3)
      \<longrightarrow> (\<forall>t \<in> set us. parse_response loads t = None)
      \<longrightarrow> 0 \<le> retries
      \<longrightarrow> generate_json_from_gemini (counting llm) loads prompt retries (w, 0)
            = (Inr (JList []), (w3, nat retries))
          \<and> int (snd (snd (generate_json_from_gemini (counting llm) loads prompt retries (w, 0))))
              = retries)"
proof (intro conjI impI)
  assume run: "invoke_n llm prompt (length ts) w = (map (\<lambda>t. Inr (Text t)) ts, w1)"
    and fail: "\<forall>t \<in> set ts. parse_response loads t = None"
    and hit: "llm prompt w1 = (Inr (Text t), w2)" and ok: "parse_response loads t = Some v"
    and lt: "int (length ts) < retries"
  have run': "invoke_n (counting llm) prompt (length ts) (w, 0)
      = (map (\<lambda>t. Inr (Text t)) ts, (w1, length ts))"
    by (simp add: invoke_n_counting run)
  have hit': "counting llm prompt (w1, length ts) = (Inr (Text t), (w2, length ts + 1))"
    by (simp add: counting_def hit)
  have "length ts < nat retries" using lt by simp
  from attempts_first_success [OF run' fail hit' ok this]
  show "generate_json_from_gemini (counting llm) loads prompt retries (w, 0)
      = (Inr v, (w2, length ts + 1))"
    by (simp add: generate_json_from_gemini_def)
next
  assume run: "invoke_n llm prompt (nat retries) w = (map (\<lambda>t. Inr (Text t)) us, w3)"
    and fail: "\<forall>t \<in> set us. parse_response loads t = None" and pos: "0 \<le> retries"
  have run': "invoke_n (counting llm) prompt (nat retries) (w, 0)
      = (map (\<lambda>t. Inr (Text t)) us, (w3, nat retries))"
    by (simp add: invoke_n_counting run)
  from attempts_exhaust [OF run' fail]
  show res: "generate_json_from_gemini (counting llm) loads prompt retries (w, 0)
      = (Inr (JList []), (w3, nat retries))"
    by (simp add: generate_json_from_gemini_def)
  show "int (snd (snd (generate_json_from_gemini (counting llm) loads prompt retries (w, 0))))
      = retries"
    using pos by (simp add: res)
qed


theorem model_invoker_witness:
  "generate_json_from_gemini (counting scripted) json_loads ''p'' 3
       ([Inr (Text ''no data''), Inr (Text ''[1]''), Inr (Text ''[2]'')], 0)
     = (Inr (JList [JInt 1]), ([Inr (Text ''[2]'')], 2))
   \<and> generate_json_from_gemini (counting scripted) json_loads ''p'' 2
       ([Inr (Text ''no data''), Inr (Text ''nope''), Inr (Text ''[2]'')], 0)
     = (Inr (JList []), ([Inr (Text ''[2]'')], 2))
   \<and> int (snd (snd (generate_json_from_gemini (counting scripted) json_loads ''p'' 2
       ([Inr (Text ''no data''), Inr (Text ''nope''), Inr (Text ''[2]'')], 0)))) = 2"
proof -
  have nd: "parse_response json_loads ''no data'' = None" by code_simp
  have nope: "parse_response json_loads ''nope'' = None" by code_simp
  have one: "parse_response json_loads ''[1]'' = Some (JList [JInt 1])" by code_simp
  have a1: "invoke_n scripted ''p'' (length [''no data''])
        [Inr (Text ''no data''), Inr (Text ''[1]''), Inr (Text ''[2]'')]
      = (map (\<lambda>t. Inr (Text t)) [''no data''], [Inr (Text ''[1]''), Inr (Text ''[2]'')])"
    by simp
  have a2: "\<forall>t \<in> set [''no data'']. parse_response json_loads t = None"
    using nd by simp
  have a3: "scripted ''p'' [Inr (Text ''[1]''), Inr (Text ''[2]'')]
      = (Inr (Text ''[1]''), [Inr (Text ''[2]'')])" by simp
  have a5: "int (length [''no data'']) < 3" by simp
  note first = model_invoker [of scripted "''p''" "[''no data'']" _ _ json_loads _ _ _ 3,
      THEN conjunct1, THEN mp, THEN mp, THEN mp, THEN mp, THEN mp, OF a1 a2 a3 one a5]
  have b1: "invoke_n scripted ''p'' (nat 2)
        [Inr (Text ''no data''), Inr (Text ''nope''), Inr (Text ''[2]'')]
      = (map (\<lambda>t. Inr (Text t)) [''no data'', ''nope''], [Inr (Text ''[2]'')])"
    by (simp add: eval_nat_numeral)
  have b2: "\<forall>t \<in> set [''no data'', ''nope'']. parse_response json_loads t = None"
    using nd nope by simp
  have b3: "(0::int) \<le> 2" by simp
  note last = model_invoker [of scripted "''p''" _ _ _ json_loads _ _ _ 2 "[''no data'', ''nope'']",
      THEN conjunct2, THEN mp, THEN mp, THEN mp, OF b1 b2 b3]
  from first have c1: "generate_json_from_gemini (counting scripted) json_loads ''p'' 3
       ([Inr (Text ''no data''), Inr (Text ''[1]''), Inr (Text ''[2]'')], 0)
     = (Inr (JList [JInt 1]), ([Inr (Text ''[2]'')], 2))" by simp
  from last [THEN conjunct1]
  have c2: "generate_json_from_gemini (counting scripted) json_loads ''p'' 2
       ([Inr (Text ''no data''), Inr (Text ''nope''), Inr (Text ''[2]'')], 0)
     = (Inr (JList []), ([Inr (Text ''[2]'')], 2))" by simp
  note c3 = last [THEN conjunct2]
  show ?thesis by (rule conjI c1 c2 c3)+
qed

text \<open>
  C3 as stated fails: when the first answer decodes to the empty sequence and
  the second would decode to a sequence that is not empty, the invoker returns
  the empty sequence after one call and never asks for the second answer.
\<close>

theorem model_invoker_counterexample:
  "generate_json_from_gemini (counting scripted) json_loads ''p'' 3
       ([Inr (Text ''[]''), Inr (Text ''[{\"a\":1}]'')], 0)
     = (Inr (JList []), ([Inr (Text ''[{\"a\":1}]'')], 1))
   \<and> parse_response json_loads ''[{\"a\":1}]'' = Some (JList [JDict [(''a'', JInt 1)]])"
proof -
  have e: "parse_response json_loads ''[]'' = Some (JList [])" by code_simp
  have a: "generate_json_from_gemini (counting scripted) json_loads ''p'' 3
       ([Inr (Text ''[]''), Inr (Text ''[{\"a\":1}]'')], 0)
     = (Inr (JList []), ([Inr (Text ''[{\"a\":1}]'')], 1))"
    by (simp add: generate_json_from_gemini_def counting_def eval_nat_numeral e)
  have b: "parse_response json_loads ''[{\"a\":1}]'' = Some (JList [JDict [(''a'', JInt 1)]])"
    by code_simp
  show ?thesis by (rule conjI a b)+
qed

text \<open>
  C8. With a cap of at least one, when the text of the first response decodes,
  the invoker returns the decoded value after exactly one call of the model,
  whatever the value is: an empty list, an empty mapping, null or a scalar.
\<close>

theorem first_decode_returns:
  "0 < retries \<Longrightarrow> llm prompt w = (Inr (Text t), w') \<Longrightarrow> loads t = Some v \<Longrightarrow>
   generate_json_from_gemini (counting llm) loads prompt retries (w, 0) = (Inr v, (w', 1))"
proof -
  assume pos: "0 < retries" and step: "llm prompt w = (Inr (Text t), w')"
    and dec: "loads t = Some v"
  from pos obtain n where n: "nat retries = Suc n" by (cases "nat retries") simp_all
  have "parse_response loads t = Some v" by (simp add: parse_response_def dec)
  then show ?thesis
    by (simp add: generate_json_from_gemini_def n counting_def step)
qed

theorem first_decode_returns_witness:
  "generate_json_from_gemini (counting scripted) json_loads ''p'' 3
       ([Inr (Text ''[]''), Inr (Text ''[1]'')], 0) = (Inr (JList []), ([Inr (Text ''[1]'')], 1))
   \<and> generate_json_from_gemini (counting scripted) json_loads ''p'' 3
       ([Inr (Text ''{}''), Inr (Text ''[1]'')], 0) = (Inr (JDict []), ([Inr (Text ''[1]'')], 1))
   \<and> generate_json_from_gemini (counting scripted) json_loads ''p'' 3
       ([Inr (Text ''null''), Inr (Text ''[1]'')], 0) = (Inr JNull, ([Inr (Text ''[1]'')], 1))
   \<and> generate_json_from_gemini (counting scripted) json_loads ''p'' 3
       ([Inr (Text ''42''), Inr (Text ''[1]'')], 0) = (Inr (JInt 42), ([Inr (Text ''[1]'')], 1))
   \<and> generate_json_from_gemini (counting scripted) json_loads ''p'' 3
       ([Inr (Text ''\"no\"''), Inr (Text ''[1]'')], 0) = (Inr (JStr ''no''), ([Inr (Text ''[1]'')], 1))"
proof -
  have pos: "(0::int) < 3" by simp
  have l1: "json_loads ''[]'' = Some (JList [])" by code_simp
  have l2: "json_loads ''{}'' = Some (JDict [])" by code_simp
  have l3: "json_loads ''null'' = Some JNull" by code_simp
  have l4: "json_loads ''42'' = Some (JInt 42)" by code_simp
  have l5: "json_loads ''\"no\"'' = Some (JStr ''no'')" by code_simp
  have s: "scripted ''p'' [Inr (Text x), Inr (Text ''[1]'')]
      = (Inr (Text x), [Inr (Text ''[1]'')])" for x by simp
  note r1 = first_decode_returns [where llm = scripted and loads = json_loads, OF pos s l1]
  note r2 = first_decode_returns [where llm = scripted and loads = json_loads, OF pos s l2]
  note r3 = first_decode_returns [where llm = scripted and loads = json_loads, OF pos s l3]
  note r4 = first_decode_returns [where llm = scripted and loads = json_loads, OF pos s l4]
  note r5 = first_decode_returns [where llm = scripted and loads = json_loads, OF pos s l5]
  show ?thesis by (rule conjI r1 r2 r3 r4 r5)+
qed

section \<open>Properties of the batch coordinator\<close>

lemma file_step_cases:
  "file_step load llm loads f (all_rows, errors) w =
     (case read_and_process load llm loads f w of
        (Inl (Exception msg), w') \<Rightarrow> (Inr (all_rows, errors @ [(name f, msg)]), w')
      | (Inr rows, w') \<Rightarrow>
          if rows = [] then (Inr (all_rows, errors @ [(name f, empty_response)]), w')
          else (Inr (all_rows @ rows, errors), w'))"
  by (simp add: file_step_def try_block_def split: prod.splits sum.splits exn.splits)


lemma for_files_snoc:
  "for_files load llm loads (fs @ [f]) b w =
     (case for_files load llm loads fs b w of
        (Inl e, w') \<Rightarrow> (Inl e, w')
      | (Inr b', w') \<Rightarrow> file_step load llm loads f b' w')"
proof (induction fs arbitrary: b w)
  case Nil
  show ?case by (simp split: prod.splits sum.splits)
next
  case (Cons g fs)
  show ?case by (simp add: Cons.IH split: prod.splits sum.splits)
qed


lemma loads_sb1: "json_loads ''[{\"SB NO.\":\"1\"}]'' = Some (JList [JDict [(''SB NO.'', JStr ''1'')]])"
  by code_simp

lemma loads_sb3: "json_loads ''[{\"SB NO.\":\"3\"}]'' = Some (JList [JDict [(''SB NO.'', JStr ''3'')]])"
  by code_simp

lemma loads_empty: "json_loads ''[]'' = Some (JList [])"
  by code_simp

text \<open>
  C2, as the code has it. The batch starts empty and takes the documents in
  order: the result for a sequence with one more document is the result for the
  sequence, followed by that document's step. When reading or processing the
  document raises, the step records the pair of the document's name and the
  text of the exception; when processing yields no row, it records the pair of
  the name and the message \<^verbatim>\<open>No material items extracted (empty response).\<close>; in
  both cases it adds no row and the batch goes on. Otherwise it appends the
  document's rows. For three documents of which the second raises while its
  text is extracted and the other two yield rows, the result has the rows of
  the first and the third, and one error, which names the second.
\<close>

theorem batch_coordinator:
  "process_uploaded_pdfs load llm loads [] w = (Inr ([], []), w)
   \<and> process_uploaded_pdfs load llm loads (fs @ [f]) w =
       (case process_uploaded_pdfs load llm loads fs w of
          (Inl e, w1) \<Rightarrow> (Inl e, w1)
        | (Inr (all_rows, errors), w1) \<Rightarrow>
            (case read_and_process load llm loads f w1 of
               (Inl (Exception msg), w2) \<Rightarrow> (Inr (all_rows, errors @ [(name f, msg)]), w2)
             | (Inr rows, w2) \<Rightarrow>
                 if rows = []
                 then (Inr (all_rows,
                            errors @ [(name f, ''No material items extracted (empty response).'')]),
                       w2)
                 else (Inr (all_rows @ rows, errors), w2)))
   \<and> (read_and_process load llm loads f1 w = (Inr rows1, w1) \<longrightarrow> rows1 \<noteq> []
        \<longrightarrow> read f2 = Inr pdf_bytes \<longrightarrow> load pdf_bytes = Inl (Exception msg)
        \<longrightarrow> read_and_process load llm loads f3 w1 = (Inr rows3, w3) \<longrightarrow> rows3 \<noteq> []
        \<longrightarrow> process_uploaded_pdfs load llm loads [f1, f2, f3] w
              = (Inr (rows1 @ rows3, [(name f2, msg)]), w3))"
proof (intro conjI impI)
  show "process_uploaded_pdfs load llm loads [] w = (Inr ([], []), w)"
    by (simp add: process_uploaded_pdfs_def)
next
  show "process_uploaded_pdfs load llm loads (fs @ [f]) w =
       (case process_uploaded_pdfs load llm loads fs w of
          (Inl e, w1) \<Rightarrow> (Inl e, w1)
        | (Inr (all_rows, errors), w1) \<Rightarrow>
            (case read_and_process load llm loads f w1 of
               (Inl (Exception msg), w2) \<Rightarrow> (Inr (all_rows, errors @ [(name f, msg)]), w2)
             | (Inr rows, w2) \<Rightarrow>
                 if rows = []
                 then (Inr (all_rows,
                            errors @ [(name f, ''No material items extracted (empty response).'')]),
                       w2)
                 else (Inr (all_rows @ rows, errors), w2)))"
    unfolding process_uploaded_pdfs_def for_files_snoc
    by (simp add: file_step_cases empty_response_def split: prod.splits sum.splits)
next
  assume d1: "read_and_process load llm loads f1 w = (Inr rows1, w1)" and n1: "rows1 \<noteq> []"
    and r2: "read f2 = Inr pdf_bytes" and l2: "load pdf_bytes = Inl (Exception msg)"
    and d3: "read_and_process load llm loads f3 w1 = (Inr rows3, w3)" and n3: "rows3 \<noteq> []"
  have d2: "read_and_process load llm loads f2 w1 = (Inl (Exception msg), w1)"
    by (simp add: read_and_process_def r2 process_single_pdf_bytes_def l2)
  have s1: "file_step load llm loads f1 ([], []) w = (Inr (rows1, []), w1)"
    by (simp add: file_step_cases d1 n1)
  have s2: "file_step load llm loads f2 (rows1, []) w1 = (Inr (rows1, [(name f2, msg)]), w1)"
    by (simp add: file_step_cases d2)
  have s3: "file_step load llm loads f3 (rows1, [(name f2, msg)]) w1
      = (Inr (rows1 @ rows3, [(name f2, msg)]), w3)"
    by (simp add: file_step_cases d3 n3)
  show "process_uploaded_pdfs load llm loads [f1, f2, f3] w
      = (Inr (rows1 @ rows3, [(name f2, msg)]), w3)"
    by (simp add: process_uploaded_pdfs_def s1 s2 s3)
qed

theorem batch_coordinator_witness:
  "process_uploaded_pdfs one_page scripted json_loads
      [\<lparr>name = ''a.pdf'', read = Inr ''doc a''\<rparr>, \<lparr>name = ''b.pdf'', read = Inr []\<rparr>,
       \<lparr>name = ''c.pdf'', read = Inr ''doc c''\<rparr>]
      [Inr (Text ''[{\"SB NO.\":\"1\"}]''), Inr (Text ''[{\"SB NO.\":\"3\"}]'')]
     = (Inr ([project_row COLUMNS [(''SB NO.'', JStr ''1'')]]
              @ [project_row COLUMNS [(''SB NO.'', JStr ''3'')]],
             [(''b.pdf'', ''unreadable'')]), [])
   \<and> process_uploaded_pdfs one_page scripted json_loads
      [\<lparr>name = ''d.pdf'', read = Inr ''doc d''\<rparr>] [Inr (Text ''[]'')]
     = (Inr ([], [(''d.pdf'', ''No material items extracted (empty response).'')]), [])"
proof -
  let ?f1 = "\<lparr>name = ''a.pdf'', read = Inr ''doc a''\<rparr>"
  let ?f2 = "\<lparr>name = ''b.pdf'', read = Inr []\<rparr>"
  let ?f3 = "\<lparr>name = ''c.pdf'', read = Inr ''doc c''\<rparr>"
  let ?f4 = "\<lparr>name = ''d.pdf'', read = Inr ''doc d''\<rparr>"
  let ?w = "[Inr (Text ''[{\"SB NO.\":\"1\"}]''), Inr (Text ''[{\"SB NO.\":\"3\"}]'')]"
  let ?w1 = "[Inr (Text ''[{\"SB NO.\":\"3\"}]'')]"
  let ?rows1 = "[project_row COLUMNS [(''SB NO.'', JStr ''1'')]]"
  let ?rows3 = "[project_row COLUMNS [(''SB NO.'', JStr ''3'')]]"
  have d1: "read_and_process one_page scripted json_loads ?f1 ?w = (Inr ?rows1, ?w1)"
    by (simp add: read_and_process_def process_single_pdf_bytes_def one_page_def
        generate_json_from_gemini_def parse_response_def loads_sb1 eval_nat_numeral)
  have n1: "?rows1 \<noteq> []" by simp
  have r2: "read ?f2 = Inr []" by simp
  have l2: "one_page [] = Inl (Exception ''unreadable'')" by (simp add: one_page_def)
  have d3: "read_and_process one_page scripted json_loads ?f3 ?w1 = (Inr ?rows3, [])"
    by (simp add: read_and_process_def process_single_pdf_bytes_def one_page_def
        generate_json_from_gemini_def parse_response_def loads_sb3 eval_nat_numeral)
  have n3: "?rows3 \<noteq> []" by simp
  note three = batch_coordinator [where load = one_page and llm = scripted and loads = json_loads,
      THEN conjunct2, THEN conjunct2, THEN mp, THEN mp, THEN mp, THEN mp, THEN mp, THEN mp,
      OF d1 n1 r2 l2 d3 n3]
  have d4: "read_and_process one_page scripted json_loads ?f4 [Inr (Text ''[]'')] = (Inr [], [])"
    by (simp add: read_and_process_def process_single_pdf_bytes_def one_page_def
        generate_json_from_gemini_def parse_response_def loads_empty eval_nat_numeral)
  note snoc = batch_coordinator [where load = one_page and llm = scripted and loads = json_loads
      and fs = "[]" and f = ?f4 and w = "[Inr (Text ''[]'')]", THEN conjunct2, THEN conjunct1]
  note nil = batch_coordinator [where load = one_page and llm = scripted and loads = json_loads
      and w = "[Inr (Text ''[]'')]", THEN conjunct1]
  from snoc have empty: "process_uploaded_pdfs one_page scripted json_loads [?f4]
        [Inr (Text ''[]'')]
      = (Inr ([], [(''d.pdf'', ''No material items extracted (empty response).'')]), [])"
    by (simp add: nil d4)
  from three have three': "process_uploaded_pdfs one_page scripted json_loads [?f1, ?f2, ?f3] ?w
      = (Inr (?rows1 @ ?rows3, [(''b.pdf'', ''unreadable'')]), [])" by simp
  show ?thesis by (rule conjI three' empty)+
qed

text \<open>
  C2 as stated fails in the message: for a document that yields no row the
  pair holds \<^verbatim>\<open>No material items extracted (empty response).\<close>, not
  \<^verbatim>\<open>no records extracted\<close>.
\<close>

theorem batch_coordinator_counterexample:
  "process_uploaded_pdfs one_page scripted json_loads
      [\<lparr>name = ''d.pdf'', read = Inr ''doc d''\<rparr>] [Inr (Text ''[]'')]
     = (Inr ([], [(''d.pdf'', ''No material items extracted (empty response).'')]), [])
   \<and> ''No material items extracted (empty response).'' \<noteq> ''no records extracted''"
proof -
  have a: "process_uploaded_pdfs one_page scripted json_loads
      [\<lparr>name = ''d.pdf'', read = Inr ''doc d''\<rparr>] [Inr (Text ''[]'')]
     = (Inr ([], [(''d.pdf'', ''No material items extracted (empty response).'')]), [])"
    by (simp add: process_uploaded_pdfs_def file_step_cases read_and_process_def
        process_single_pdf_bytes_def one_page_def generate_json_from_gemini_def
        parse_response_def loads_empty eval_nat_numeral empty_response_def)
  have b: "''No material items extracted (empty response).'' \<noteq> ''no records extracted''"
    by simp
  show ?thesis by (rule conjI a b)+
qed




end
